theory Spec2Isabelle
  imports Complex_Main "HOL-Library.AList"
begin

section \<open>Strings\<close>

text \<open>
  A JavaScript string is a sequence of UTF-16 code units. The model uses \<^typ>\<open>string\<close>:
  one \<^typ>\<open>char\<close> stands for one code unit in the range U+0000 to U+00FF, so every
  statement below is about texts over that range.
\<close>

definition toLowerCase_char :: "char \<Rightarrow> char" where
  \<comment> \<open>the lower-case mapping of \<open>String.prototype.toLowerCase\<close> on U+0000..U+00FF:
      A-Z, and the capital letters U+00C0..U+00DE without the sign U+00D7\<close>
  "toLowerCase_char c = (let n = (of_char c :: nat) in
     if (65 \<le> n \<and> n \<le> 90) \<or> (192 \<le> n \<and> n \<le> 222 \<and> n \<noteq> 215)
     then char_of (n + 32) else c)"

definition toLowerCase :: "string \<Rightarrow> string" where
  "toLowerCase s = map toLowerCase_char s"

definition substring :: "string \<Rightarrow> nat \<Rightarrow> nat \<Rightarrow> string" where
  \<comment> \<open>\<open>s.substring(start, fin)\<close>: both indices are clamped to the length, and swapped
      when the first is the larger\<close>
  "substring s start fin =
     (let a = min start (length s); b = min fin (length s); lo = min a b; hi = max a b
      in take (hi - lo) (drop lo s))"

fun join :: "string \<Rightarrow> string list \<Rightarrow> string" where
  \<comment> \<open>\<open>Array.prototype.join\<close>\<close>
  "join sep [] = []"
| "join sep [x] = x"
| "join sep (x # y # ys) = x @ sep @ join sep (y # ys)"

section \<open>The folder name of a language (lines 142-145, 173-176)\<close>

definition folderName :: "string \<Rightarrow> string" where
  "folderName lang =
     (if toLowerCase lang = ''italian'' then ''ita'' else substring (toLowerCase lang) 0 2)"

definition slug_spec :: "string \<Rightarrow> string" where
  \<comment> \<open>the rule in the words of the specification (section 4.5), for comparison with
      \<^const>\<open>folderName\<close>\<close>
  "slug_spec name =
     (let lowered = toLowerCase name
      in if lowered = ''italian'' then ''ita'' else take 2 lowered)"

section \<open>The regular expression of lines 104 and 123\<close>

text \<open>
  The pattern \<^verbatim>\<open>/"([^"]+)"\s*:\s*"([\s\S]*)"/\<close> is a sequence of character classes, each
  taken once or under a greedy \<^verbatim>\<open>*\<close> or \<^verbatim>\<open>+\<close>, two of them inside a capture group. The
  matcher below is the backtracking matcher of ECMAScript for such sequences: a greedy
  quantifier takes the longest run first and gives characters back one at a time while
  the rest of the pattern fails; \<open>search\<close> tries the start positions from left to right,
  as \<open>String.prototype.match\<close> does for a pattern without the \<^verbatim>\<open>g\<close> flag.
\<close>

datatype quantifier = One | Star | Plus

datatype atom = Atom "char \<Rightarrow> bool" quantifier bool
  \<comment> \<open>character class, quantifier, and whether the atom is a capture group\<close>

fun first_some :: "('a \<Rightarrow> 'b option) \<Rightarrow> 'a list \<Rightarrow> 'b option" where
  "first_some f [] = None"
| "first_some f (x # xs) = (case f x of Some y \<Rightarrow> Some y | None \<Rightarrow> first_some f xs)"

fun match_here :: "atom list \<Rightarrow> string \<Rightarrow> string list option" where
  "match_here [] s = Some []"
| "match_here (Atom cls One cap # rest) s =
     (case s of
        [] \<Rightarrow> None
      | c # cs \<Rightarrow>
          if cls c
          then map_option (\<lambda>caps. if cap then [c] # caps else caps) (match_here rest cs)
          else None)"
| "match_here (Atom cls q cap # rest) s =
     (let longest = length (takeWhile cls s); least = (if q = Plus then 1 else 0)
      in first_some
           (\<lambda>n. map_option (\<lambda>caps. if cap then take n s # caps else caps)
                  (match_here rest (drop n s)))
           (rev [least..<Suc longest]))"

fun search :: "atom list \<Rightarrow> string \<Rightarrow> string list option" where
  "search pat [] = match_here pat []"
| "search pat (c # cs) =
     (case match_here pat (c # cs) of Some caps \<Rightarrow> Some caps | None \<Rightarrow> search pat cs)"

definition dquote :: char where
  "dquote = CHR 0x22"

definition is_space :: "char \<Rightarrow> bool" where
  \<comment> \<open>the class \<^verbatim>\<open>\s\<close> on U+0000..U+00FF: TAB, LF, VT, FF, CR, SPACE, NBSP\<close>
  "is_space c = ((of_char c :: nat) \<in> {9, 10, 11, 12, 13, 32, 160})"

definition kv_regex :: "atom list" where
  "kv_regex =
     [Atom (\<lambda>c. c = dquote) One False,
      Atom (\<lambda>c. c \<noteq> dquote) Plus True,
      Atom (\<lambda>c. c = dquote) One False,
      Atom is_space Star False,
      Atom (\<lambda>c. c = CHR '':'') One False,
      Atom is_space Star False,
      Atom (\<lambda>c. c = dquote) One False,
      Atom (\<lambda>c. True) Star True,
      Atom (\<lambda>c. c = dquote) One False]"

definition match_kv :: "string \<Rightarrow> (string \<times> string) option" where
  \<comment> \<open>\<open>rawValue.match(...)\<close>, giving \<open>(match[1], match[2])\<close>\<close>
  "match_kv rawValue =
     (case search kv_regex rawValue of Some [key, val] \<Rightarrow> Some (key, val) | _ \<Rightarrow> None)"

subsection \<open>The parser in the words of the specification (section 4.2)\<close>

definition kv_regex_spec :: "atom list" where
  \<comment> \<open>as \<^const>\<open>kv_regex\<close>, but with the value "terminated by the next quote"\<close>
  "kv_regex_spec =
     [Atom (\<lambda>c. c = dquote) One False,
      Atom (\<lambda>c. c \<noteq> dquote) Plus True,
      Atom (\<lambda>c. c = dquote) One False,
      Atom is_space Star False,
      Atom (\<lambda>c. c = CHR '':'') One False,
      Atom is_space Star False,
      Atom (\<lambda>c. c = dquote) One False,
      Atom (\<lambda>c. c \<noteq> dquote) Star True,
      Atom (\<lambda>c. c = dquote) One False]"

definition match_kv_spec :: "string \<Rightarrow> (string \<times> string) option" where
  "match_kv_spec text =
     (case search kv_regex_spec text of Some [key, val] \<Rightarrow> Some (key, val) | _ \<Rightarrow> None)"

definition occurrence :: "string \<Rightarrow> string \<Rightarrow> string \<Rightarrow> bool" where
  \<comment> \<open>\<open>s\<close> begins with a quoted key, a colon with optional white space around it, and a
      quoted value that runs up to the last quote of \<open>s\<close>\<close>
  "occurrence s key val \<longleftrightarrow>
     (\<exists>ws1 ws2 post.
        s = [dquote] @ key @ [dquote] @ ws1 @ '':'' @ ws2 @ [dquote] @ val @ [dquote] @ post
        \<and> key \<noteq> [] \<and> dquote \<notin> set key
        \<and> list_all is_space ws1 \<and> list_all is_space ws2
        \<and> dquote \<notin> set post)"

section \<open>JavaScript values and objects\<close>

datatype jsval = JUndefined | JBoolean bool | JNumber rat | JString string

fun truthy :: "jsval \<Rightarrow> bool" where
  "truthy JUndefined = False"
| "truthy (JBoolean b) = b"
| "truthy (JNumber n) = (n \<noteq> 0)"
| "truthy (JString s) = (s \<noteq> [])"

fun ToPropertyKey :: "(rat \<Rightarrow> string) \<Rightarrow> jsval \<Rightarrow> string" where
  \<comment> \<open>the string under which a value is used as a property name; the text of a number is
      the language's \<open>Number::toString\<close>, a parameter of the model\<close>
  "ToPropertyKey numstr JUndefined = ''undefined''"
| "ToPropertyKey numstr (JBoolean b) = (if b then ''true'' else ''false'')"
| "ToPropertyKey numstr (JNumber n) = numstr n"
| "ToPropertyKey numstr (JString s) = s"

text \<open>
  An object created by \<^verbatim>\<open>{}\<close> is modelled by its own enumerable properties in the order of
  their creation. Assigning to the name \<^verbatim>\<open>__proto__\<close> runs the setter inherited from
  \<^verbatim>\<open>Object.prototype\<close>: it creates no own property (it replaces the prototype when the
  value is an object, and does nothing when the value is a string).
\<close>

type_synonym 'v js_object = "(string \<times> 'v) list"

definition obj_assign :: "'v js_object \<Rightarrow> string \<Rightarrow> 'v \<Rightarrow> 'v js_object" where
  \<comment> \<open>\<open>obj[key] = value\<close>\<close>
  "obj_assign obj key val = (if key = ''__proto__'' then obj else AList.update key val obj)"

definition is_digit :: "char \<Rightarrow> bool" where
  "is_digit c \<longleftrightarrow> 48 \<le> (of_char c :: nat) \<and> (of_char c :: nat) \<le> 57"

definition decimal :: "string \<Rightarrow> int" where
  \<comment> \<open>the number that a string of digits denotes\<close>
  "decimal s = foldl (\<lambda>n c. 10 * n + ((of_char c :: int) - 48)) 0 s"

definition is_array_index :: "string \<Rightarrow> bool" where
  \<comment> \<open>a canonical numeric string for an integer from 0 to 2^32 - 2\<close>
  "is_array_index s \<longleftrightarrow>
     s \<noteq> [] \<and> list_all is_digit s \<and> (length s = 1 \<or> hd s \<noteq> CHR ''0'')
     \<and> decimal s < 4294967295"

definition obj_entries :: "'v js_object \<Rightarrow> (string \<times> 'v) list" where
  \<comment> \<open>\<open>Object.entries(obj)\<close>: the array-index names in ascending numeric order, then the
      other names in the order of their creation\<close>
  "obj_entries obj =
     sort_key (\<lambda>p. decimal (fst p)) (filter (\<lambda>p. is_array_index (fst p)) obj)
     @ filter (\<lambda>p. \<not> is_array_index (fst p)) obj"

section \<open>Workbook, sheet and cells\<close>

record cell =
  cell_w :: "string option"  \<comment> \<open>the field \<open>w\<close>: formatted text, when the library made one\<close>
  cell_v :: jsval            \<comment> \<open>the field \<open>v\<close>: the raw value\<close>

record sheet =
  cells :: "nat \<times> nat \<Rightarrow> cell option"
    \<comment> \<open>\<open>sheet[XLSX.utils.encode_cell({r, c})]\<close>, by zero-based row and column\<close>
  decoded_ref :: "string + nat"
    \<comment> \<open>the outcome of \<open>XLSX.utils.decode_range(sheet["!ref"])\<close>: the message of the error
        thrown (a sheet without \<open>!ref\<close>), or the last row \<open>range.e.r\<close>\<close>

record workbook =
  Sheets :: "string \<Rightarrow> sheet option"

definition sheetName :: string where
  "sheetName = ''json_tranlsation''"

definition cell_or :: "cell \<Rightarrow> jsval" where
  \<comment> \<open>\<open>cell.w || cell.v\<close>\<close>
  "cell_or c = (case cell_w c of
                  None \<Rightarrow> cell_v c
                | Some s \<Rightarrow> if truthy (JString s) then JString s else cell_v c)"

definition header_value :: "cell option \<Rightarrow> jsval" where
  \<comment> \<open>line 72: \<open>cell ? cell.w || cell.v : undefined\<close>\<close>
  "header_value c = (case c of None \<Rightarrow> JUndefined | Some c' \<Rightarrow> cell_or c')"

definition headerRow :: "sheet \<Rightarrow> nat \<Rightarrow> jsval" where
  \<comment> \<open>lines 69-73: the array is filled at the indices 1 to 21 and \<open>undefined\<close> elsewhere\<close>
  "headerRow sh col =
     (if 1 \<le> col \<and> col \<le> 21 then header_value (cells sh (1, col)) else JUndefined)"

definition data_text :: "cell option \<Rightarrow> string option" where
  \<comment> \<open>lines 96-101 and 117-121: the text of a data cell, or nothing (\<open>continue\<close>)\<close>
  "data_text c =
     (case c of
        None \<Rightarrow> None
      | Some c' \<Rightarrow>
          (let rawValue = cell_or c'
           in case rawValue of
                JString s \<Rightarrow> if \<not> truthy rawValue then None else Some s
              | _ \<Rightarrow> None))"

section \<open>The header loops and the row loop (lines 75-130)\<close>

type_synonym dictionary = "string js_object"
type_synonym dictionaries = "dictionary js_object"

definition translation_cols :: "nat list" where
  "translation_cols = [1..<10]"

definition eula_cols :: "nat list" where
  "eula_cols = [13..<22]"

definition init_langs :: "(rat \<Rightarrow> string) \<Rightarrow> (nat \<Rightarrow> jsval) \<Rightarrow> nat list \<Rightarrow> dictionaries" where
  \<comment> \<open>lines 76-80 and 83-87: \<open>if (langName) langData[langName] = {}\<close>\<close>
  "init_langs numstr hdr cols =
     foldl (\<lambda>data col.
              let langName = hdr col
              in if truthy langName then obj_assign data (ToPropertyKey numstr langName) [] else data)
       [] cols"

definition assign_nested :: "dictionaries \<Rightarrow> string \<Rightarrow> string \<Rightarrow> string \<Rightarrow> dictionaries" where
  \<comment> \<open>\<open>langData[langName][key] = value\<close>. Under the name \<^verbatim>\<open>__proto__\<close> the target is the
      prototype object, which \<open>Object.entries\<close> never shows. Every other name was given
      its own object by the header loop (lemma \<open>init_langs_keys\<close>), so the case of a
      missing object, where JavaScript would throw, does not arise.\<close>
  "assign_nested data langName key val =
     (if langName = ''__proto__'' then data
      else AList.map_entry langName (\<lambda>dict. obj_assign dict key val) data)"

definition process_cell ::
  "(rat \<Rightarrow> string) \<Rightarrow> sheet \<Rightarrow> (nat \<Rightarrow> jsval) \<Rightarrow> nat \<Rightarrow> dictionaries \<Rightarrow> nat \<Rightarrow> dictionaries" where
  \<comment> \<open>the body of the column loops, lines 93-109 and 114-128\<close>
  "process_cell numstr sh hdr row data col =
     (let langName = hdr col
      in if \<not> truthy langName then data
         else case data_text (cells sh (row, col)) of
                None \<Rightarrow> data
              | Some rawValue \<Rightarrow>
                  (case match_kv rawValue of
                     None \<Rightarrow> data
                   | Some (key, val) \<Rightarrow>
                       assign_nested data (ToPropertyKey numstr langName) key val))"

definition process_row ::
  "(rat \<Rightarrow> string) \<Rightarrow> sheet \<Rightarrow> (nat \<Rightarrow> jsval) \<Rightarrow> dictionaries \<times> dictionaries \<Rightarrow> nat
     \<Rightarrow> dictionaries \<times> dictionaries" where
  "process_row numstr sh hdr data row =
     (foldl (process_cell numstr sh hdr row) (fst data) translation_cols,
      foldl (process_cell numstr sh hdr row) (snd data) eula_cols)"

definition accumulate ::
  "(rat \<Rightarrow> string) \<Rightarrow> sheet \<Rightarrow> nat \<Rightarrow> dictionaries \<times> dictionaries" where
  \<comment> \<open>lines 69-130, for a sheet whose range ends at row \<open>last_row\<close>\<close>
  "accumulate numstr sh last_row =
     (let hdr = headerRow sh;
          langData = init_langs numstr hdr translation_cols;
          eulaData = init_langs numstr hdr eula_cols
      in foldl (process_row numstr sh hdr) (langData, eulaData) [2..<Suc last_row])"

section \<open>The libraries and the file system\<close>

text \<open>
  The handler calls the spreadsheet library, the formatter and the file system. Their
  behaviour is a parameter of the model: every call either returns or throws, and a
  thrown error is the value \<open>Inl message\<close>. A file-system call that throws leaves the
  file system as it was. \<open>'fs\<close> is the state of the file system, \<open>'p\<close> the type of paths.
\<close>

type_synonym config = "(string \<times> string) list"

record ('fs, 'p) host =
  XLSX_readFile :: "'fs \<Rightarrow> string \<Rightarrow> string + workbook"
  Number_toString :: "rat \<Rightarrow> string"
  fs_existsSync :: "'fs \<Rightarrow> 'p \<Rightarrow> bool"
  fs_mkdirSync :: "'fs \<Rightarrow> 'p \<Rightarrow> bool \<Rightarrow> string + 'fs"
    \<comment> \<open>the flag is the option \<open>recursive\<close>\<close>
  fs_writeFileSync :: "'fs \<Rightarrow> 'p \<Rightarrow> string \<Rightarrow> string + 'fs"
  path_join :: "'p \<Rightarrow> string \<Rightarrow> 'p"
  prettier_resolveConfig :: "'fs \<Rightarrow> string + config option"
  prettier_format :: "string \<Rightarrow> config option \<Rightarrow> 'p \<Rightarrow> string + string"
    \<comment> \<open>source text, resolved configuration, \<open>filepath\<close>; the parser is always \<open>json\<close>\<close>

datatype 'p result =
  Success (message: string) (filesCreated: nat) (files: "'p list")
| Failure (message: string)

section \<open>Writing the files (lines 138-199)\<close>

definition member_text :: "string \<times> string \<Rightarrow> string" where
  \<comment> \<open>the template of lines 156 and 186: two spaces, the key in quotes, a colon, a space,
      the value in quotes\<close>
  "member_text kv = ''  '' @ [dquote] @ fst kv @ [dquote] @ '': '' @ [dquote] @ snd kv @ [dquote]"

definition jsonString :: "dictionary \<Rightarrow> string" where
  "jsonString dict =
     ''{'' @ [CHR 0x0A] @ join ('','' @ [CHR 0x0A]) (map member_text (obj_entries dict))
     @ [CHR 0x0A] @ ''}''"

definition ensure_dir :: "('fs, 'p) host \<Rightarrow> 'fs \<Rightarrow> 'p \<Rightarrow> bool \<Rightarrow> string + 'fs" where
  \<comment> \<open>\<open>if (!fs.existsSync(dir)) fs.mkdirSync(dir, { recursive })\<close>, lines 133, 147-148 and
      178-179\<close>
  "ensure_dir h fs dir recursive =
     (if fs_existsSync h fs dir then Inr fs else fs_mkdirSync h fs dir recursive)"

fun write_files ::
  "('fs, 'p) host \<Rightarrow> config option \<Rightarrow> 'p \<Rightarrow> string \<Rightarrow> (string \<times> dictionary) list
     \<Rightarrow> 'p list \<Rightarrow> 'fs \<Rightarrow> (string + 'p list) \<times> 'fs" where
  \<comment> \<open>one of the two loops over \<open>Object.entries\<close>; \<open>fileName\<close> is \<open>translation.json\<close> or
      \<open>eula.json\<close>. The result is the error thrown or the list \<open>createdFiles\<close>, and the
      file system as the loop left it.\<close>
  "write_files h cfg outputDir fileName [] createdFiles fs = (Inr createdFiles, fs)"
| "write_files h cfg outputDir fileName ((lang, dict) # rest) createdFiles fs =
     (let langFolder = path_join h outputDir (folderName lang)
      in case ensure_dir h fs langFolder True of
           Inl e \<Rightarrow> (Inl e, fs)
         | Inr fs1 \<Rightarrow>
             (let filePath = path_join h langFolder fileName
              in case prettier_format h (jsonString dict) cfg filePath of
                   Inl e \<Rightarrow> (Inl e, fs1)
                 | Inr formatted \<Rightarrow>
                     (case fs_writeFileSync h fs1 filePath formatted of
                        Inl e \<Rightarrow> (Inl e, fs1)
                      | Inr fs2 \<Rightarrow>
                          write_files h cfg outputDir fileName rest
                            (createdFiles @ [filePath]) fs2)))"

section \<open>The handler of \<open>export-translation\<close> (lines 50-213)\<close>

definition sheet_not_found :: string where
  "sheet_not_found = ''Sheet '' @ [dquote] @ sheetName @ [dquote] @ '' not found''"

definition export_try ::
  "('fs, 'p) host \<Rightarrow> 'fs \<Rightarrow> string \<Rightarrow> 'p \<Rightarrow> (string + 'p list) \<times> 'fs" where
  \<comment> \<open>the \<open>try\<close> block: the message of the error thrown, or \<open>createdFiles\<close>\<close>
  "export_try h fs inputFile outputDir =
     (case XLSX_readFile h fs inputFile of
        Inl e \<Rightarrow> (Inl e, fs)
      | Inr workbook \<Rightarrow>
          (case Sheets workbook sheetName of
             None \<Rightarrow> (Inl sheet_not_found, fs)
           | Some sheet \<Rightarrow>
               (case decoded_ref sheet of
                  Inl e \<Rightarrow> (Inl e, fs)
                | Inr last_row \<Rightarrow>
                    (let data = accumulate (Number_toString h) sheet last_row;
                         langData = fst data;
                         eulaData = snd data
                     in case ensure_dir h fs outputDir False of
                          Inl e \<Rightarrow> (Inl e, fs)
                        | Inr fs1 \<Rightarrow>
                            (case prettier_resolveConfig h fs1 of
                               Inl e \<Rightarrow> (Inl e, fs1)
                             | Inr cfg \<Rightarrow>
                                 (case write_files h cfg outputDir ''translation.json''
                                         (obj_entries langData) [] fs1 of
                                    (Inl e, fs2) \<Rightarrow> (Inl e, fs2)
                                  | (Inr createdFiles, fs2) \<Rightarrow>
                                      write_files h cfg outputDir ''eula.json''
                                        (obj_entries eulaData) createdFiles fs2))))))"

definition export_translation ::
  "('fs, 'p) host \<Rightarrow> 'fs \<Rightarrow> string \<Rightarrow> 'p \<Rightarrow> 'p result \<times> 'fs" where
  \<comment> \<open>the handler: the \<open>try\<close> block and its \<open>catch\<close>\<close>
  "export_translation h fs inputFile outputDir =
     (case export_try h fs inputFile outputDir of
        (Inl e, fs') \<Rightarrow> (Failure e, fs')
      | (Inr createdFiles, fs') \<Rightarrow>
          (Success ''Export completed successfully!'' (length createdFiles) createdFiles, fs'))"

section \<open>A file system with POSIX paths\<close>

text \<open>
  One instance of the file-system calls: a path is the list of its segments below the
  root, a node is a directory or a file with its content, and the root is a directory.
  Permissions are not modelled. The messages are the error codes of Node.js.
\<close>

datatype node = Dir | File string

type_synonym path = "string list"
type_synonym posix_fs = "path \<Rightarrow> node option"

definition node_at :: "posix_fs \<Rightarrow> path \<Rightarrow> node option" where
  "node_at fs p = (if p = [] then Some Dir else fs p)"

definition posix_existsSync :: "posix_fs \<Rightarrow> path \<Rightarrow> bool" where
  "posix_existsSync fs p \<longleftrightarrow> node_at fs p \<noteq> None"

definition mkdir_one :: "posix_fs \<Rightarrow> path \<Rightarrow> string + posix_fs" where
  \<comment> \<open>\<open>mkdir\<close> without \<open>recursive\<close>: the parent has to be a directory\<close>
  "mkdir_one fs p =
     (if node_at fs p \<noteq> None then Inl ''EEXIST''
      else case node_at fs (butlast p) of
             None \<Rightarrow> Inl ''ENOENT''
           | Some (File content) \<Rightarrow> Inl ''ENOTDIR''
           | Some Dir \<Rightarrow> Inr (fs(p \<mapsto> Dir)))"

fun mkdir_prefixes :: "posix_fs \<Rightarrow> path \<Rightarrow> string list \<Rightarrow> string + posix_fs" where
  \<comment> \<open>\<open>mkdir\<close> with \<open>recursive\<close>, below the directory \<open>done\<close>: every missing directory on
      the way is created\<close>
  "mkdir_prefixes fs done [] = Inr fs"
| "mkdir_prefixes fs done (seg # segs) =
     (case node_at fs (done @ [seg]) of
        None \<Rightarrow> mkdir_prefixes (fs(done @ [seg] \<mapsto> Dir)) (done @ [seg]) segs
      | Some Dir \<Rightarrow> mkdir_prefixes fs (done @ [seg]) segs
      | Some (File content) \<Rightarrow> Inl (if segs = [] then ''EEXIST'' else ''ENOTDIR''))"

definition posix_mkdirSync :: "posix_fs \<Rightarrow> path \<Rightarrow> bool \<Rightarrow> string + posix_fs" where
  "posix_mkdirSync fs p recursive =
     (if recursive then mkdir_prefixes fs [] p else mkdir_one fs p)"

definition posix_writeFileSync :: "posix_fs \<Rightarrow> path \<Rightarrow> string \<Rightarrow> string + posix_fs" where
  "posix_writeFileSync fs p content =
     (case node_at fs p of
        Some Dir \<Rightarrow> Inl ''EISDIR''
      | _ \<Rightarrow>
          (case node_at fs (butlast p) of
             None \<Rightarrow> Inl ''ENOENT''
           | Some (File other) \<Rightarrow> Inl ''ENOTDIR''
           | Some Dir \<Rightarrow> Inr (fs(p \<mapsto> File content))))"

fun split_on :: "char \<Rightarrow> string \<Rightarrow> string list" where
  "split_on sep [] = [[]]"
| "split_on sep (c # cs) =
     (if c = sep then [] # split_on sep cs
      else case split_on sep cs of
             [] \<Rightarrow> [[c]]
           | seg # segs \<Rightarrow> (c # seg) # segs)"

definition posix_join :: "path \<Rightarrow> string \<Rightarrow> path" where
  \<comment> \<open>\<open>path.join(base, name)\<close> for a base without \<open>.\<close> and \<open>..\<close>: the segments of \<open>name\<close> are
      appended, \<open>.\<close> and empty segments are dropped, \<open>..\<close> goes one directory up\<close>
  "posix_join base name =
     foldl (\<lambda>p seg. if seg = [] \<or> seg = ''.'' then p
                     else if seg = ''..'' then butlast p
                     else p @ [seg])
       base (split_on CHR ''/'' name)"

definition posix_host ::
  "(string \<Rightarrow> string + workbook) \<Rightarrow> (rat \<Rightarrow> string) \<Rightarrow> (string \<Rightarrow> string + string)
     \<Rightarrow> (posix_fs, path) host" where
  \<comment> \<open>the POSIX file system with a given reader, number printer and formatter, and no
      configuration file for the formatter\<close>
  "posix_host reader numstr formatter =
     \<lparr> XLSX_readFile = (\<lambda>fs name. reader name),
       Number_toString = numstr,
       fs_existsSync = posix_existsSync,
       fs_mkdirSync = posix_mkdirSync,
       fs_writeFileSync = posix_writeFileSync,
       path_join = posix_join,
       prettier_resolveConfig = (\<lambda>fs. Inr None),
       prettier_format = (\<lambda>source cfg filePath. formatter source) \<rparr>"

section \<open>What the rows contribute, in the order of the scan\<close>

text \<open>
  These definitions are not in the source: they name what the statements about the row
  loop need. The loop visits the cells row by row from row 2 to the last row and, in a
  row, column by column; \<open>parsed_cell\<close> is the language, key and value that one cell
  contributes, and \<open>parsed_values\<close> lists the values that the visited cells give for one
  language and key, in the order of the visit.
\<close>

definition scan_order :: "nat \<Rightarrow> nat list \<Rightarrow> (nat \<times> nat) list" where
  "scan_order last_row cols = List.product [2..<Suc last_row] cols"

definition parsed_cell ::
  "(rat \<Rightarrow> string) \<Rightarrow> sheet \<Rightarrow> nat \<times> nat \<Rightarrow> (string \<times> string \<times> string) option" where
  "parsed_cell numstr sh rc =
     (let langName = headerRow sh (snd rc)
      in if \<not> truthy langName then None
         else case data_text (cells sh rc) of
                None \<Rightarrow> None
              | Some rawValue \<Rightarrow>
                  (case match_kv rawValue of
                     None \<Rightarrow> None
                   | Some (key, val) \<Rightarrow> Some (ToPropertyKey numstr langName, key, val)))"



definition lang_keys :: "(rat \<Rightarrow> string) \<Rightarrow> sheet \<Rightarrow> nat list \<Rightarrow> string set" where
  "lang_keys numstr sh cols =
     (\<lambda>col. ToPropertyKey numstr (headerRow sh col)) ` {col \<in> set cols. truthy (headerRow sh col)}"

definition store ::  "dictionaries \<Rightarrow> (string \<times> string \<times> string) \<Rightarrow> dictionaries" where
  "store data w = assign_nested data (fst w) (fst (snd w)) (snd (snd w))"

section \<open>JSON texts\<close>

text \<open>
  What a valid JSON document is (RFC 8259), as a recogniser: a pushdown automaton that
  reads the text one character at a time. The stack holds the objects and arrays that
  are open, the mode tells what may come next. \<open>json_string_body\<close> says, without the
  automaton, that a text may stand between the quotes of a JSON string as it is: no
  quote and no control character, and a backslash only as the start of an escape.
\<close>

datatype frame = InObject | InArray

datatype mode =
    AtValue | AtValueOrEnd | AtKeyOrEnd | AtKey | AtColon | AfterValue
  | InString bool | InEscape bool | InHex bool nat | InLiteral string
  | NumMinus | NumZero | NumInt | NumDot | NumFrac | NumExp | NumExpSign | NumExpDigits
  | Rejected

definition json_ws :: "char \<Rightarrow> bool" where
  "json_ws c \<longleftrightarrow> c = CHR '' '' \<or> c = CHR 0x09 \<or> c = CHR 0x0A \<or> c = CHR 0x0D"

definition is_hex :: "char \<Rightarrow> bool" where
  "is_hex c \<longleftrightarrow> is_digit c \<or> c \<in> set ''abcdefABCDEF''"

definition backslash :: char where
  "backslash = CHR 0x5C"

definition simple_escape :: "char \<Rightarrow> bool" where
  "simple_escape c \<longleftrightarrow> c = dquote \<or> c = backslash \<or> c \<in> set ''/bfnrt''"

definition next_after_value :: "frame list \<Rightarrow> char \<Rightarrow> frame list \<times> mode" where
  "next_after_value stack c =
     (if json_ws c then (stack, AfterValue)
      else case stack of
             [] \<Rightarrow> ([], Rejected)
           | InObject # rest \<Rightarrow>
               if c = CHR '','' then (stack, AtKey)
               else if c = CHR ''}'' then (rest, AfterValue) else ([], Rejected)
           | InArray # rest \<Rightarrow>
               if c = CHR '','' then (stack, AtValue)
               else if c = CHR '']'' then (rest, AfterValue) else ([], Rejected))"

definition start_value :: "frame list \<Rightarrow> char \<Rightarrow> frame list \<times> mode" where
  "start_value stack c =
     (if c = CHR ''{'' then (InObject # stack, AtKeyOrEnd)
      else if c = CHR ''['' then (InArray # stack, AtValueOrEnd)
      else if c = dquote then (stack, InString False)
      else if c = CHR ''-'' then (stack, NumMinus)
      else if c = CHR ''0'' then (stack, NumZero)
      else if is_digit c then (stack, NumInt)
      else if c = CHR ''t'' then (stack, InLiteral ''rue'')
      else if c = CHR ''f'' then (stack, InLiteral ''alse'')
      else if c = CHR ''n'' then (stack, InLiteral ''ull'')
      else ([], Rejected))"

fun json_step :: "frame list \<times> mode \<Rightarrow> char \<Rightarrow> frame list \<times> mode" where
  "json_step (stack, AtValue) c = (if json_ws c then (stack, AtValue) else start_value stack c)"
| "json_step (stack, AtValueOrEnd) c =
     (if json_ws c then (stack, AtValueOrEnd)
      else if c = CHR '']'' then (tl stack, AfterValue) else start_value stack c)"
| "json_step (stack, AtKeyOrEnd) c =
     (if json_ws c then (stack, AtKeyOrEnd)
      else if c = CHR ''}'' then (tl stack, AfterValue)
      else if c = dquote then (stack, InString True) else ([], Rejected))"
| "json_step (stack, AtKey) c =
     (if json_ws c then (stack, AtKey)
      else if c = dquote then (stack, InString True) else ([], Rejected))"
| "json_step (stack, AtColon) c =
     (if json_ws c then (stack, AtColon)
      else if c = CHR '':'' then (stack, AtValue) else ([], Rejected))"
| "json_step (stack, AfterValue) c = next_after_value stack c"
| "json_step (stack, InString k) c =
     (if c = dquote then (stack, if k then AtColon else AfterValue)
      else if c = backslash then (stack, InEscape k)
      else if (of_char c :: nat) < 32 then ([], Rejected) else (stack, InString k))"
| "json_step (stack, InEscape k) c =
     (if simple_escape c then (stack, InString k)
      else if c = CHR ''u'' then (stack, InHex k 4) else ([], Rejected))"
| "json_step (stack, InHex k n) c =
     (if is_hex c then (if n \<le> 1 then (stack, InString k) else (stack, InHex k (n - 1)))
      else ([], Rejected))"
| "json_step (stack, InLiteral rest) c =
     (case rest of
        [] \<Rightarrow> ([], Rejected)
      | x # xs \<Rightarrow>
          if c = x then (if xs = [] then (stack, AfterValue) else (stack, InLiteral xs)) else ([], Rejected))"
| "json_step (stack, NumMinus) c =
     (if c = CHR ''0'' then (stack, NumZero) else if is_digit c then (stack, NumInt) else ([], Rejected))"
| "json_step (stack, NumZero) c =
     (if c = CHR ''.'' then (stack, NumDot)
      else if c = CHR ''e'' \<or> c = CHR ''E'' then (stack, NumExp) else next_after_value stack c)"
| "json_step (stack, NumInt) c =
     (if is_digit c then (stack, NumInt)
      else if c = CHR ''.'' then (stack, NumDot)
      else if c = CHR ''e'' \<or> c = CHR ''E'' then (stack, NumExp) else next_after_value stack c)"
| "json_step (stack, NumDot) c = (if is_digit c then (stack, NumFrac) else ([], Rejected))"
| "json_step (stack, NumFrac) c =
     (if is_digit c then (stack, NumFrac)
      else if c = CHR ''e'' \<or> c = CHR ''E'' then (stack, NumExp) else next_after_value stack c)"
| "json_step (stack, NumExp) c =
     (if c = CHR ''+'' \<or> c = CHR ''-'' then (stack, NumExpSign)
      else if is_digit c then (stack, NumExpDigits) else ([], Rejected))"
| "json_step (stack, NumExpSign) c = (if is_digit c then (stack, NumExpDigits) else ([], Rejected))"
| "json_step (stack, NumExpDigits) c =
     (if is_digit c then (stack, NumExpDigits) else next_after_value stack c)"
| "json_step (stack, Rejected) c = ([], Rejected)"

definition json_valid :: "string \<Rightarrow> bool" where
  "json_valid s \<longleftrightarrow>
     (case foldl json_step ([], AtValue) s of
        (stack, m) \<Rightarrow> stack = [] \<and> m \<in> {AfterValue, NumZero, NumInt, NumFrac, NumExpDigits})"


subsection \<open>Reading the members back\<close>

text \<open>
  The same automaton, with a buffer: \<open>json_string_members\<close> gives the members of the
  outermost object of a text that have a string as their value, in the order of the
  text, each as the pair of the texts that stand between the quotes of its key and of
  its value.
\<close>

definition in_string :: "mode \<Rightarrow> bool" where
  "in_string m = (case m of InString k \<Rightarrow> True | InEscape k \<Rightarrow> True | InHex k n \<Rightarrow> True
                  | _ \<Rightarrow> False)"

type_synonym collector =
  "(frame list \<times> mode) \<times> string \<times> string option \<times> (string \<times> string) list"

definition collect_step :: "collector \<Rightarrow> char \<Rightarrow> collector" where
  \<comment> \<open>the state of the automaton, the string read so far, the key that waits for its
      value, and the members found\<close>
  "collect_step s c =
     (case s of (st, buf, key, ms) \<Rightarrow>
        (let st' = json_step st c
         in if in_string (snd st) \<and> in_string (snd st') then (st', buf @ [c], key, ms)
            else if fst st = [InObject] \<and> snd st = InString True \<and> snd st' = AtColon
            then (st', [], Some buf, ms)
            else if fst st = [InObject] \<and> snd st = InString False \<and> snd st' = AfterValue
            then (case key of
                    Some k \<Rightarrow> (st', [], None, ms @ [(k, buf)])
                  | None \<Rightarrow> (st', [], None, ms))
            else (st', [], key, ms)))"


section \<open>Paths, counts and example inputs for the statements\<close>

definition file_path :: "('fs, 'p) host \<Rightarrow> 'p \<Rightarrow> string \<Rightarrow> string \<Rightarrow> 'p" where
  \<comment> \<open>the path \<open>outputDir/slug/fileName\<close> of a language, as lines 146 and 150 build it\<close>
  "file_path h outputDir fileName lang =
     path_join h (path_join h outputDir (folderName lang)) fileName"

definition nonempty_header_cells :: "sheet \<Rightarrow> nat list \<Rightarrow> nat" where
  \<comment> \<open>the number of columns of a range whose header cell has a value that counts as
      present (\<open>if (langName)\<close>)\<close>
  "nonempty_header_cells sh cols = length (filter (\<lambda>col. truthy (headerRow sh col)) cols)"

definition text_cell :: "string \<Rightarrow> cell" where
  "text_cell s = \<lparr> cell_w = None, cell_v = JString s \<rparr>"

definition number_cell :: "rat \<Rightarrow> cell" where
  "number_cell n = \<lparr> cell_w = None, cell_v = JNumber n \<rparr>"

definition sheet_of :: "((nat \<times> nat) \<times> cell) list \<Rightarrow> nat \<Rightarrow> sheet" where
  "sheet_of cs last_row = \<lparr> cells = map_of cs, decoded_ref = Inr last_row \<rparr>"

definition workbook_of :: "sheet \<Rightarrow> workbook" where
  "workbook_of sh = \<lparr> Sheets = (\<lambda>name. if name = sheetName then Some sh else None) \<rparr>"

definition example_host :: "workbook \<Rightarrow> (posix_fs, path) host" where
  \<comment> \<open>the workbook is what the reader returns; numbers print as \<open>2024\<close>; the formatter
      returns the text as it is\<close>
  "example_host wb = posix_host (\<lambda>name. Inr wb) (\<lambda>q. ''2024'') Inr"


definition english_twice :: sheet where
  "english_twice = sheet_of [((1, 1), text_cell ''English''), ((1, 2), text_cell ''English'')] 1"

definition three_languages :: sheet where
  "three_languages = sheet_of [((1, 1), text_cell ''English''), ((1, 2), text_cell ''Italian''),
                               ((1, 13), text_cell ''English'')] 1"

definition proto_header :: sheet where
  \<open>proto_header = sheet_of [((1, 1), text_cell ''__proto__''),
                            ((2, 1), text_cell ''"k": "v"'')] 2\<close>

definition number_header :: sheet where
  "number_header = sheet_of [((1, 1), number_cell 2024)] 1"

definition empty_sheet :: sheet where
  "empty_sheet = sheet_of [] 1"



section \<open>Theorems\<close>

text \<open>
  C7. The folder name of a language is a function of the name alone: the name is
  lower-cased; when the result is \<open>italian\<close> the folder is \<open>ita\<close>; otherwise it is the
  first two characters of the lower-cased name. This is the rule of the specification,
  \<^const>\<open>slug_spec\<close>, and a non-empty name gets a non-empty folder of at most three characters.
\<close>

theorem folderName_rule:
  "folderName lang = slug_spec lang
   \<and> folderName lang = (if toLowerCase lang = ''italian'' then ''ita'' else take 2 (toLowerCase lang))
   \<and> (lang \<noteq> [] \<longrightarrow> folderName lang \<noteq> [] \<and> length (folderName lang) \<le> 3)"
proof -
  have sub: "substring s 0 2 = take 2 s" for s
    by (simp add: substring_def Let_def min_def)
  have "folderName lang = (if toLowerCase lang = ''italian'' then ''ita'' else take 2 (toLowerCase lang))"
    by (simp add: folderName_def sub)
  moreover have "lang \<noteq> [] \<Longrightarrow> take 2 (toLowerCase lang) \<noteq> []"
    by (cases lang) (simp_all add: toLowerCase_def)
  moreover have "length (take 2 (toLowerCase lang)) \<le> 3"
    by simp
  ultimately show ?thesis
    by (simp add: slug_spec_def Let_def del: length_take)
qed

theorem folderName_rule_witness:
  "folderName ''Italian'' = ''ita'' \<and> folderName ''English'' = ''en'' \<and> folderName ''X'' = ''x''"
proof -
  have a: "toLowerCase ''Italian'' = ''italian''" by code_simp
  have b: "toLowerCase ''English'' = ''english''" by code_simp
  have c: "toLowerCase ''X'' = ''x''" by code_simp
  show ?thesis
    using folderName_rule [of "''Italian''"] folderName_rule [of "''English''"]
      folderName_rule [of "''X''"]
    by (simp add: slug_spec_def a b c)
qed

subsection \<open>The matcher\<close>

lemma first_some_None: "first_some f xs = None \<longleftrightarrow> (\<forall>x\<in>set xs. f x = None)"
  by (induction xs) (auto split: option.splits)

lemma match_one:
  "match_here (Atom cls One False # rest) s = Some caps \<longleftrightarrow>
     (\<exists>c cs. s = c # cs \<and> cls c \<and> match_here rest cs = Some caps)"
  by (cases s) auto

lemma match_run_then_one:
  assumes disj: "\<And>c. cls c \<Longrightarrow> \<not> cls2 c" and q: "q \<noteq> One"
  shows "match_here (Atom cls q cap # Atom cls2 One cap2 # rest) s =
     (let n = length (takeWhile cls s) in
      if (if q = Plus then 1 else 0) \<le> n
      then map_option (\<lambda>caps. if cap then take n s # caps else caps)
             (match_here (Atom cls2 One cap2 # rest) (drop n s))
      else None)"
proof -
  define n where "n = length (takeWhile cls s)"
  define least :: nat where "least = (if q = Plus then 1 else 0)"
  define f where "f = (\<lambda>m. map_option (\<lambda>caps. if cap then take m s # caps else caps)
                  (match_here (Atom cls2 One cap2 # rest) (drop m s)))"
  have lhs: "match_here (Atom cls q cap # Atom cls2 One cap2 # rest) s = first_some f (rev [least..<Suc n])"
    using q by (cases q) (simp_all add: n_def least_def f_def Let_def)
  have below: "f m = None" if "m < n" for m
  proof -
    have "m < length s" using that takeWhile_eq_take[of cls s] length_takeWhile_le[of cls s] by (simp add: n_def)
    then obtain c cs where d: "drop m s = c # cs" and c: "c = s ! m"
      by (metis Cons_nth_drop_Suc)
    have "cls (s ! m)" using that unfolding n_def
      by (metis nth_mem set_takeWhileD takeWhile_nth)
    then have "\<not> cls2 c" using disj c by simp
    then show ?thesis by (simp add: f_def d)
  qed
  show ?thesis
  proof (cases "least \<le> n")
    case True
    have "first_some f (rev [least..<Suc n]) = (case f n of Some y \<Rightarrow> Some y | None \<Rightarrow> first_some f (rev [least..<n]))"
      using True by simp
    moreover have "first_some f (rev [least..<n]) = None"
      by (simp add: first_some_None below)
    ultimately have "first_some f (rev [least..<Suc n]) = f n"
      by (simp split: option.splits)
    then show ?thesis using True lhs by (simp add: f_def n_def least_def Let_def)
  next
    case False
    then have "rev [least..<Suc n] = []" by simp
    then show ?thesis using False lhs by (simp add: n_def least_def Let_def)
  qed
qed

lemma first_some_rev_upt:
  "first_some f (rev [0..<k]) = Some y \<longleftrightarrow>
     (\<exists>n<k. f n = Some y \<and> (\<forall>j. n < j \<and> j < k \<longrightarrow> f j = None))"
proof (induction k)
  case 0
  then show ?case by simp
next
  case (Suc k)
  show ?case
  proof (cases "f k")
    case None
    have "(\<exists>n<Suc k. f n = Some y \<and> (\<forall>j. n < j \<and> j < Suc k \<longrightarrow> f j = None))
          \<longleftrightarrow> (\<exists>n<k. f n = Some y \<and> (\<forall>j. n < j \<and> j < k \<longrightarrow> f j = None))"
      using None by (metis less_Suc_eq option.distinct(1))
    then show ?thesis using None Suc by simp
  next
    case (Some z)
    have "(\<exists>n<Suc k. f n = Some y \<and> (\<forall>j. n < j \<and> j < Suc k \<longrightarrow> f j = None)) \<longleftrightarrow> z = y"
      using Some by (metis less_Suc_eq lessI not_less_eq option.distinct(1) option.inject less_irrefl)
    then show ?thesis using Some by simp
  qed
qed

lemma match_star_unfold:
  "match_here (Atom cls Star cap # rest) s =
     first_some (\<lambda>n. map_option (\<lambda>caps. if cap then take n s # caps else caps)
                      (match_here rest (drop n s)))
       (rev [0..<Suc (length (takeWhile cls s))])"
  by (simp only: match_here.simps Let_def quantifier.distinct if_False)

lemma match_tail:
  "match_here [Atom (\<lambda>c. True) Star True, Atom (\<lambda>c. c = q) One False] s = Some caps \<longleftrightarrow>
     (\<exists>val post. s = val @ [q] @ post \<and> q \<notin> set post \<and> caps = [val])"
proof -
  define f where "f = (\<lambda>n. map_option (\<lambda>caps. take n s # caps)
                  (match_here [Atom (\<lambda>c. c = q) One False] (drop n s)))"
  have lhs: "match_here [Atom (\<lambda>c. True) Star True, Atom (\<lambda>c. c = q) One False] s
             = first_some f (rev [0..<Suc (length s)])"
  proof -
    have tw: "takeWhile (\<lambda>c. True) s = s" by simp
    show ?thesis by (simp only: match_star_unfold f_def tw if_True)
  qed
  have f_Some: "f n = Some y \<longleftrightarrow> n < length s \<and> s ! n = q \<and> y = [take n s]" for n y
  proof (cases "n < length s")
    case True
    then have "drop n s = s ! n # drop (Suc n) s" by (simp add: Cons_nth_drop_Suc)
    then show ?thesis using True by (auto simp: f_def)
  next
    case False
    then show ?thesis by (simp add: f_def)
  qed
  have f_None: "f n = None \<longleftrightarrow> \<not> (n < length s \<and> s ! n = q)" for n
    using f_Some[of n] by (metis not_None_eq)
  show ?thesis
  proof
    assume "match_here [Atom (\<lambda>c. True) Star True, Atom (\<lambda>c. c = q) One False] s = Some caps"
    then obtain n where n: "n < Suc (length s)" "f n = Some caps"
        and later: "\<forall>j. n < j \<and> j < Suc (length s) \<longrightarrow> f j = None"
      unfolding lhs first_some_rev_upt by blast
    from n have n': "n < length s" "s ! n = q" "caps = [take n s]" by (simp_all add: f_Some)
    have "s = take n s @ [q] @ drop (Suc n) s"
      using n' id_take_nth_drop [of n s] by simp
    moreover have "q \<notin> set (drop (Suc n) s)"
    proof
      assume "q \<in> set (drop (Suc n) s)"
      then obtain i where i: "i < length (drop (Suc n) s)" "drop (Suc n) s ! i = q"
        by (auto simp: in_set_conv_nth)
      then have "Suc n + i < length s" "s ! (Suc n + i) = q" by auto
      then show False using later f_None[of "Suc n + i"] by auto
    qed
    ultimately show "\<exists>val post. s = val @ [q] @ post \<and> q \<notin> set post \<and> caps = [val]"
      using n' by blast
  next
    assume "\<exists>val post. s = val @ [q] @ post \<and> q \<notin> set post \<and> caps = [val]"
    then obtain val post where s: "s = val @ [q] @ post" and post: "q \<notin> set post" and caps: "caps = [val]"
      by blast
    have "f (length val) = Some caps"
      by (simp add: f_Some s caps)
    moreover have "f j = None" if "length val < j" for j
    proof -
      have "j < length s \<Longrightarrow> s ! j \<noteq> q"
      proof -
        assume "j < length s"
        then have "s ! j = post ! (j - Suc (length val))" "j - Suc (length val) < length post"
          using that by (auto simp: s nth_append nth_Cons')
        then show ?thesis using post by (metis nth_mem)
      qed
      then show ?thesis by (auto simp: f_None)
    qed
    moreover have "length val < Suc (length s)" by (simp add: s)
    ultimately show "match_here [Atom (\<lambda>c. True) Star True, Atom (\<lambda>c. c = q) One False] s = Some caps"
      unfolding lhs first_some_rev_upt by blast
  qed
qed

lemma match_plus_key:
  "match_here (Atom (\<lambda>c. c \<noteq> dquote) Plus True # Atom (\<lambda>c. c = dquote) One False # rest) s = Some caps \<longleftrightarrow>
     (\<exists>key r caps'. s = key @ dquote # r \<and> key \<noteq> [] \<and> dquote \<notin> set key
        \<and> match_here rest r = Some caps' \<and> caps = key # caps')"
  (is "?L \<longleftrightarrow> ?R")
proof -
  let ?P = "\<lambda>c. c \<noteq> dquote"
  have eq: "match_here (Atom ?P Plus True # Atom (\<lambda>c. c = dquote) One False # rest) s =
     (if 1 \<le> length (takeWhile ?P s)
      then map_option (\<lambda>caps. takeWhile ?P s # caps)
             (match_here (Atom (\<lambda>c. c = dquote) One False # rest) (dropWhile ?P s))
      else None)"
    using match_run_then_one [where cls = ?P and ?cls2.0 = "\<lambda>c. c = dquote" and q = Plus
        and cap = True and ?cap2.0 = False and rest = rest and s = s]
    by (simp add: Let_def dropWhile_eq_drop [symmetric] takeWhile_eq_take [symmetric])
  show ?thesis
  proof
    assume ?L
    then have k: "takeWhile ?P s \<noteq> []"
      and m: "map_option (\<lambda>caps. takeWhile ?P s # caps)
             (match_here (Atom (\<lambda>c. c = dquote) One False # rest) (dropWhile ?P s)) = Some caps"
      unfolding eq by (auto split: if_splits)
    from m obtain caps' where c: "match_here (Atom (\<lambda>c. c = dquote) One False # rest) (dropWhile ?P s) = Some caps'"
      and caps: "caps = takeWhile ?P s # caps'" by auto
    from c obtain r where d: "dropWhile ?P s = dquote # r" and r: "match_here rest r = Some caps'"
      unfolding match_one by auto
    have "s = takeWhile ?P s @ dquote # r" using d takeWhile_dropWhile_id [of ?P s] by simp
    moreover have "dquote \<notin> set (takeWhile ?P s)" using set_takeWhileD by fastforce
    ultimately show ?R using k r caps by blast
  next
    assume ?R
    then obtain key r caps' where s: "s = key @ dquote # r" and k: "key \<noteq> []" "dquote \<notin> set key"
      and r: "match_here rest r = Some caps'" and caps: "caps = key # caps'" by blast
    have all: "\<forall>x\<in>set key. ?P x" using k by auto
    have tw: "takeWhile ?P s = key" using all by (simp add: s takeWhile_append2)
    have dw: "dropWhile ?P s = dquote # r" using all by (simp add: s dropWhile_append2)
    have "match_here (Atom (\<lambda>c. c = dquote) One False # rest) (dquote # r) = Some caps'"
      unfolding match_one using r by simp
    then show ?L unfolding eq tw dw using k caps by (cases key) simp_all
  qed
qed

lemma match_spaces:
  assumes nsp: "\<not> is_space d"
  shows "match_here (Atom is_space Star False # Atom (\<lambda>c. c = d) One False # rest) s = Some caps \<longleftrightarrow>
     (\<exists>ws r. s = ws @ d # r \<and> list_all is_space ws \<and> match_here rest r = Some caps)"
  (is "?L \<longleftrightarrow> ?R")
proof -
  have disj: "\<And>c. is_space c \<Longrightarrow> \<not> c = d" using nsp by auto
  have eq: "match_here (Atom is_space Star False # Atom (\<lambda>c. c = d) One False # rest) s =
      match_here (Atom (\<lambda>c. c = d) One False # rest) (dropWhile is_space s)"
    using match_run_then_one [where cls = is_space and ?cls2.0 = "\<lambda>c. c = d" and q = Star
        and cap = False and ?cap2.0 = False and rest = rest and s = s, OF disj]
    by (simp add: Let_def dropWhile_eq_drop [symmetric] option.map_ident)
  show ?thesis
  proof
    assume ?L
    then obtain r where d: "dropWhile is_space s = d # r" and r: "match_here rest r = Some caps"
      unfolding eq match_one by auto
    have "s = takeWhile is_space s @ d # r" using d takeWhile_dropWhile_id [of is_space s] by simp
    moreover have "list_all is_space (takeWhile is_space s)"
      by (simp add: list_all_iff) (meson set_takeWhileD)
    ultimately show ?R using r by blast
  next
    assume ?R
    then obtain ws r where s: "s = ws @ d # r" and ws: "list_all is_space ws"
      and r: "match_here rest r = Some caps" by blast
    have "dropWhile is_space s = d # r"
      using ws nsp by (simp add: s dropWhile_append2 list_all_iff)
    then show ?L unfolding eq match_one using r by simp
  qed
qed

lemma match_here_kv_regex:
  "match_here kv_regex s = Some caps \<longleftrightarrow> (\<exists>key val. caps = [key, val] \<and> occurrence s key val)"
proof -
  have nc: "\<not> is_space CHR '':''" and nq: "\<not> is_space dquote"
    by (simp_all add: is_space_def dquote_def)
  show ?thesis
    unfolding kv_regex_def occurrence_def match_one match_plus_key match_spaces [OF nc]
      match_spaces [OF nq] match_tail
    by auto blast+
qed

lemma search_None:
  "search pat s = None \<longleftrightarrow> (\<forall>pre rest. s = pre @ rest \<longrightarrow> match_here pat rest = None)"
proof (induction s)
  case Nil
  then show ?case by simp
next
  case (Cons c cs)
  show ?case
  proof (cases "match_here pat (c # cs)")
    case None
    have "(\<forall>pre rest. c # cs = pre @ rest \<longrightarrow> match_here pat rest = None)
          \<longleftrightarrow> (\<forall>pre rest. cs = pre @ rest \<longrightarrow> match_here pat rest = None)"
      using None by (auto simp: Cons_eq_append_conv)
    then show ?thesis using None Cons by simp
  next
    case (Some caps)
    then have "\<not> (\<forall>pre rest. c # cs = pre @ rest \<longrightarrow> match_here pat rest = None)"
      by (metis append_Nil option.distinct(1))
    then show ?thesis using Some by simp
  qed
qed

lemma search_Some:
  "search pat s = Some caps \<longleftrightarrow>
     (\<exists>pre rest. s = pre @ rest \<and> match_here pat rest = Some caps
        \<and> (\<forall>pre' rest'. s = pre' @ rest' \<and> length pre' < length pre \<longrightarrow> match_here pat rest' = None))"
  (is "_ \<longleftrightarrow> ?R s")
proof (induction s)
  case Nil
  then show ?case by simp
next
  case (Cons c cs)
  show ?case
  proof (cases "match_here pat (c # cs)")
    case (Some caps')
    have "?R (c # cs) \<longleftrightarrow> caps' = caps"
    proof
      assume "?R (c # cs)"
      then obtain pre rest where s: "c # cs = pre @ rest" and m: "match_here pat rest = Some caps"
        and first: "\<forall>pre' rest'. c # cs = pre' @ rest' \<and> length pre' < length pre \<longrightarrow> match_here pat rest' = None"
        by blast
      have "pre = []"
      proof (rule ccontr)
        assume "pre \<noteq> []"
        then have "match_here pat (c # cs) = None" using first [rule_format, of "[]" "c # cs"] by simp
        then show False using Some by simp
      qed
      then show "caps' = caps" using s m Some by simp
    next
      assume "caps' = caps"
      then have "c # cs = [] @ (c # cs) \<and> match_here pat (c # cs) = Some caps
        \<and> (\<forall>pre' rest'. c # cs = pre' @ rest' \<and> length pre' < length ([]::string) \<longrightarrow> match_here pat rest' = None)"
        using Some by simp
      then show "?R (c # cs)" by blast
    qed
    then show ?thesis using Some by auto
  next
    case None
    have "?R (c # cs) \<longleftrightarrow> ?R cs"
    proof
      assume "?R (c # cs)"
      then obtain pre rest where s: "c # cs = pre @ rest" and m: "match_here pat rest = Some caps"
        and first: "\<forall>pre' rest'. c # cs = pre' @ rest' \<and> length pre' < length pre \<longrightarrow> match_here pat rest' = None"
        by blast
      from s m None obtain pre0 where pre: "pre = c # pre0" and cs: "cs = pre0 @ rest"
        by (cases pre) auto
      have "\<forall>pre' rest'. cs = pre' @ rest' \<and> length pre' < length pre0 \<longrightarrow> match_here pat rest' = None"
      proof (intro allI impI)
        fix pre' rest' assume a: "cs = pre' @ rest' \<and> length pre' < length pre0"
        then show "match_here pat rest' = None"
          using first [rule_format, of "c # pre'" rest'] pre by simp
      qed
      then show "?R cs" using cs m by blast
    next
      assume "?R cs"
      then obtain pre rest where s: "cs = pre @ rest" and m: "match_here pat rest = Some caps"
        and first: "\<forall>pre' rest'. cs = pre' @ rest' \<and> length pre' < length pre \<longrightarrow> match_here pat rest' = None"
        by blast
      have "\<forall>pre' rest'. c # cs = pre' @ rest' \<and> length pre' < length (c # pre) \<longrightarrow> match_here pat rest' = None"
      proof (intro allI impI)
        fix pre' rest' assume a: "c # cs = pre' @ rest' \<and> length pre' < length (c # pre)"
        show "match_here pat rest' = None"
        proof (cases pre')
          case Nil
          then show ?thesis using a None by simp
        next
          case (Cons d pre'')
          then show ?thesis using a first [rule_format, of pre'' rest'] by simp
        qed
      qed
      moreover have "c # cs = (c # pre) @ rest" using s by simp
      ultimately show "?R (c # cs)" using m by blast
    qed
    then show ?thesis using None Cons by simp
  qed
qed

lemma match_kv_Some:
  "match_kv s = Some (key, val) \<longleftrightarrow> search kv_regex s = Some [key, val]"
proof (cases "search kv_regex s")
  case None
  then show ?thesis by (simp add: match_kv_def)
next
  case (Some caps)
  then obtain pre rest where "match_here kv_regex rest = Some caps"
    unfolding search_Some by blast
  then obtain k v where "caps = [k, v]" unfolding match_here_kv_regex by blast
  then show ?thesis using Some by (simp add: match_kv_def)
qed

lemma match_kv_None:
  "match_kv s = None \<longleftrightarrow> search kv_regex s = None"
proof (cases "search kv_regex s")
  case None
  then show ?thesis by (simp add: match_kv_def)
next
  case (Some caps)
  then obtain pre rest where "match_here kv_regex rest = Some caps"
    unfolding search_Some by blast
  then obtain k v where "caps = [k, v]" unfolding match_here_kv_regex by blast
  then show ?thesis using Some by (simp add: match_kv_def)
qed

lemma match_here_kv_None:
  "match_here kv_regex s = None \<longleftrightarrow> (\<forall>k v. \<not> occurrence s k v)"
  using match_here_kv_regex [of s] by (metis not_None_eq option.distinct(1))

text \<open>
  C2 (as amended). The parser returns the leftmost occurrence of a quoted key of one or
  more non-quote characters, a colon with optional white space on both sides, and a
  quoted value; the value is greedy: it runs up to the last quote of the text and may
  itself contain quotes, so a second pair in the same cell becomes part of the value
  of the first. When the text has no occurrence the parser reports no match.
\<close>

theorem match_kv_first_occurrence:
  "(match_kv s = Some (key, val) \<longleftrightarrow>
      (\<exists>pre rest. s = pre @ rest \<and> occurrence rest key val
         \<and> (\<forall>pre' rest' k v. s = pre' @ rest' \<and> length pre' < length pre \<longrightarrow> \<not> occurrence rest' k v)))
   \<and> (match_kv s = None \<longleftrightarrow> (\<forall>pre rest k v. s = pre @ rest \<longrightarrow> \<not> occurrence rest k v))"
  unfolding match_kv_Some match_kv_None search_Some search_None match_here_kv_None match_here_kv_regex
  by auto

theorem match_kv_first_occurrence_witness:
  \<open>match_kv ''"k" : "v" tail'' = Some (''k'', ''v'')\<close>
proof -
  have occ: \<open>occurrence ''"k" : "v" tail'' ''k'' ''v''\<close>
    unfolding occurrence_def
    by (rule exI [of _ "'' ''"], rule exI [of _ "'' ''"], rule exI [of _ "'' tail''"])
      (simp add: dquote_def is_space_def)
  have \<open>\<exists>pre rest. ''"k" : "v" tail'' = pre @ rest \<and> occurrence rest ''k'' ''v''
         \<and> (\<forall>pre' rest' k v. ''"k" : "v" tail'' = pre' @ rest' \<and> length pre' < length pre
               \<longrightarrow> \<not> occurrence rest' k v)\<close>
    by (rule exI [of _ "[]"], rule exI [of _ \<open>''"k" : "v" tail''\<close>]) (use occ in simp)
  then show ?thesis
    using match_kv_first_occurrence [of \<open>''"k" : "v" tail''\<close> "''k''" "''v''"] by blast
qed

text \<open>
  C2 as stated fails: where a cell holds two pairs, the value is not cut at the next
  quote, as the parser in the words of the specification would do.
\<close>

theorem match_kv_value_runs_to_last_quote:
  \<open>match_kv ''"a": "1", "b": "2"'' = Some (''a'', ''1", "b": "2'')
   \<and> match_kv_spec ''"a": "1", "b": "2"'' = Some (''a'', ''1'')
   \<and> match_kv ''"a": "1", "b": "2"'' \<noteq> match_kv_spec ''"a": "1", "b": "2"''\<close>
  by code_simp


subsection \<open>Objects\<close>

lemma set_update_subset: "set (AList.update k v al) \<subseteq> insert (k, v) (set al)"
  by (induction al) auto

lemma obj_assign_dom:
  "fst ` set (obj_assign obj k v) = (if k = ''__proto__'' then fst ` set obj else insert k (fst ` set obj))"
  by (simp add: obj_assign_def dom_update)

lemma obj_assign_distinct: "distinct (map fst obj) \<Longrightarrow> distinct (map fst (obj_assign obj k v))"
  by (simp add: obj_assign_def distinct_update)


lemma map_entry_keys: "map fst (AList.map_entry k f xs) = map fst xs"
  by (induction xs) auto

lemma assign_nested_keys: "map fst (assign_nested data l k v) = map fst data"
  by (simp add: assign_nested_def map_entry_keys)


lemma set_obj_entries: "set (obj_entries obj) = set obj"
  by (auto simp: obj_entries_def)

lemma length_obj_entries: "length (obj_entries obj) = length obj"
  by (simp add: obj_entries_def sum_length_filter_compl)


subsection \<open>The header loop\<close>

lemma init_langs_foldl_keys:
  fixes hdr :: "nat \<Rightarrow> jsval" and numstr :: "rat \<Rightarrow> string"
  defines "step \<equiv> (\<lambda>data col. let langName = hdr col
              in if truthy langName then obj_assign data (ToPropertyKey numstr langName) [] else data)"
  assumes "distinct (map fst data)" "''__proto__'' \<notin> set (map fst data)" "\<forall>p\<in>set data. snd p = []"
  shows "distinct (map fst (foldl step data cols))
       \<and> set (map fst (foldl step data cols)) =
           set (map fst data) \<union> ((\<lambda>col. ToPropertyKey numstr (hdr col)) ` {col \<in> set cols. truthy (hdr col)} - {''__proto__''})
       \<and> (\<forall>p\<in>set (foldl step data cols). snd p = [])"
  using assms(2-)
proof (induction cols arbitrary: data)
  case Nil
  then show ?case by simp
next
  case (Cons c cols)
  have d: "distinct (map fst (step data c))"
    using Cons.prems by (simp add: step_def Let_def obj_assign_distinct)
  have k: "set (map fst (step data c)) =
      set (map fst data) \<union> (if truthy (hdr c) \<and> ToPropertyKey numstr (hdr c) \<noteq> ''__proto__'' then {ToPropertyKey numstr (hdr c)} else {})"
    by (auto simp: step_def Let_def obj_assign_dom)
  have p: "''__proto__'' \<notin> set (map fst (step data c))"
    using Cons.prems k by (auto split: if_splits)
  have e: "\<forall>p\<in>set (step data c). snd p = []"
    using Cons.prems
    using set_update_subset [of "ToPropertyKey numstr (hdr c)" "[]" data]
    by (auto simp: step_def Let_def obj_assign_def)
  show ?case
    using Cons.IH [OF d p e] k by (auto split: if_splits)
qed

lemma init_langs_keys:
  "distinct (map fst (init_langs numstr (headerRow sh) cols))
   \<and> fst ` set (init_langs numstr (headerRow sh) cols) = lang_keys numstr sh cols - {''__proto__''}
   \<and> (\<forall>p\<in>set (init_langs numstr (headerRow sh) cols). snd p = [])"
  using init_langs_foldl_keys [of "[]" "headerRow sh" numstr cols]
  by (simp add: init_langs_def lang_keys_def)

subsection \<open>The row loop\<close>

lemma process_cell_parsed:
  "process_cell numstr sh (headerRow sh) row data col =
     (case parsed_cell numstr sh (row, col) of None \<Rightarrow> data | Some w \<Rightarrow> store data w)"
  by (simp add: process_cell_def parsed_cell_def store_def Let_def split: option.splits)

lemma foldl_option_map_filter:
  "foldl (\<lambda>d x. case f x of None \<Rightarrow> d | Some w \<Rightarrow> g d w) d xs = foldl g d (List.map_filter f xs)"
  by (induction xs arbitrary: d) (auto simp: List.map_filter_simps split: option.splits)

lemma foldl_cols:
  "foldl (process_cell numstr sh (headerRow sh) row) data cols =
     foldl store data (List.map_filter (parsed_cell numstr sh) (map (Pair row) cols))"
  by (induction cols arbitrary: data)
    (simp_all add: List.map_filter_simps process_cell_parsed split: option.splits)

lemma map_filter_append: "List.map_filter f (xs @ ys) = List.map_filter f xs @ List.map_filter f ys"
  by (simp add: List.map_filter_def)

lemma foldl_rows:
  "foldl (process_row numstr sh (headerRow sh)) data rows =
     (foldl store (fst data) (List.map_filter (parsed_cell numstr sh) (List.product rows translation_cols)),
      foldl store (snd data) (List.map_filter (parsed_cell numstr sh) (List.product rows eula_cols)))"
proof (induction rows arbitrary: data)
  case Nil
  then show ?case by (simp add: List.map_filter_simps)
next
  case (Cons r rows)
  show ?case
    by (simp only: foldl_Cons Cons.IH)
      (simp add: process_row_def foldl_cols map_filter_append)
qed

lemma accumulate_stores:
  "accumulate numstr sh last_row =
     (foldl store (init_langs numstr (headerRow sh) translation_cols)
        (List.map_filter (parsed_cell numstr sh) (scan_order last_row translation_cols)),
      foldl store (init_langs numstr (headerRow sh) eula_cols)
        (List.map_filter (parsed_cell numstr sh) (scan_order last_row eula_cols)))"
  by (simp add: accumulate_def Let_def foldl_rows scan_order_def del: upt_Suc)

lemma store_keys: "map fst (foldl store data ws) = map fst data"
  by (induction ws arbitrary: data) (simp_all add: store_def assign_nested_keys)







subsection \<open>The write loops\<close>

lemma write_files_created:
  "write_files h cfg outputDir fileName entries created fs = (Inr created', fs') \<Longrightarrow>
     created' = created @ map (\<lambda>p. file_path h outputDir fileName (fst p)) entries"
proof (induction entries arbitrary: created fs)
  case Nil
  then show ?case by simp
next
  case (Cons p entries)
  obtain lang dict where p: "p = (lang, dict)" by (cases p)
  from Cons.prems obtain fs2 where
    "write_files h cfg outputDir fileName entries
       (created @ [path_join h (path_join h outputDir (folderName lang)) fileName]) fs2 = (Inr created', fs')"
    by (auto simp: p Let_def split: sum.splits)
  from Cons.IH [OF this] show ?case
    by (simp add: p file_path_def)
qed

lemma export_try_success:
  assumes "export_try h fs inputFile outputDir = (Inr created, fs')"
  shows "\<exists>wb sh last_row.
           XLSX_readFile h fs inputFile = Inr wb \<and> Sheets wb sheetName = Some sh
           \<and> decoded_ref sh = Inr last_row
           \<and> created =
               map (\<lambda>p. file_path h outputDir ''translation.json'' (fst p))
                 (obj_entries (fst (accumulate (Number_toString h) sh last_row)))
               @ map (\<lambda>p. file_path h outputDir ''eula.json'' (fst p))
                   (obj_entries (snd (accumulate (Number_toString h) sh last_row)))"
proof -
  from assms obtain wb where wb: "XLSX_readFile h fs inputFile = Inr wb"
    by (auto simp: export_try_def split: sum.splits)
  from assms wb obtain sh where sh: "Sheets wb sheetName = Some sh"
    by (auto simp: export_try_def split: option.splits)
  from assms wb sh obtain last_row where lr: "decoded_ref sh = Inr last_row"
    by (auto simp: export_try_def split: sum.splits)
  let ?data = "accumulate (Number_toString h) sh last_row"
  from assms wb sh lr obtain fs1 cfg c1 fs2 where
    w1: "write_files h cfg outputDir ''translation.json'' (obj_entries (fst ?data)) [] fs1 = (Inr c1, fs2)"
    and w2: "write_files h cfg outputDir ''eula.json'' (obj_entries (snd ?data)) c1 fs2 = (Inr created, fs')"
    by (auto simp: export_try_def Let_def split: sum.splits prod.splits)
  show ?thesis
    using wb sh lr write_files_created [OF w1] write_files_created [OF w2] by simp
qed

lemma export_translation_Success:
  "fst (export_translation h fs inputFile outputDir) = Success m n fl \<longleftrightarrow>
     (\<exists>fs'. export_try h fs inputFile outputDir = (Inr fl, fs'))
     \<and> m = ''Export completed successfully!'' \<and> n = length fl"
  by (cases "export_try h fs inputFile outputDir")
    (auto simp: export_translation_def split: sum.splits)

lemma accumulate_keys:
  "map fst (fst (accumulate numstr sh last_row)) = map fst (init_langs numstr (headerRow sh) translation_cols)"
  "map fst (snd (accumulate numstr sh last_row)) = map fst (init_langs numstr (headerRow sh) eula_cols)"
  by (simp_all add: accumulate_stores store_keys)

lemma obj_entries_keys:
  "set (map fst (obj_entries obj)) = set (map fst obj)"
  "distinct (map fst obj) \<Longrightarrow> distinct (map fst (obj_entries obj))"
proof -
  show s: "set (map fst (obj_entries obj)) = set (map fst obj)" by (simp add: set_obj_entries)
  assume "distinct (map fst obj)"
  then have "card (set (map fst obj)) = length obj" using distinct_card by fastforce
  then have "card (set (map fst (obj_entries obj))) = length (map fst (obj_entries obj))"
    using s by (simp add: length_obj_entries)
  then show "distinct (map fst (obj_entries obj))" by (rule card_distinct)
qed

lemma dictionaries_created:
  "distinct (map fst (obj_entries (fst (accumulate numstr sh last_row))))"
  "set (map fst (obj_entries (fst (accumulate numstr sh last_row)))) = lang_keys numstr sh translation_cols - {''__proto__''}"
  "distinct (map fst (obj_entries (snd (accumulate numstr sh last_row))))"
  "set (map fst (obj_entries (snd (accumulate numstr sh last_row)))) = lang_keys numstr sh eula_cols - {''__proto__''}"
  using init_langs_keys [of numstr sh translation_cols] init_langs_keys [of numstr sh eula_cols]
    obj_entries_keys [of "fst (accumulate numstr sh last_row)"]
    obj_entries_keys [of "snd (accumulate numstr sh last_row)"]
  by (simp_all add: accumulate_keys)

text \<open>
  C10 (as amended). For every sheet whose header cells give no language the name
  \<^verbatim>\<open>__proto__\<close>: in every success result \<open>filesCreated\<close> is the length of the list of files,
  and both are the number of distinct language names among the header cells of the
  translation range whose value counts as present (a text that is not empty; a number
  other than zero and the boolean true count too, under their printed form) plus the
  number of distinct language names among such header cells of the license range.
  Header cells of one range with the same name are one language, and the list has one
  path per language and category, each once.
\<close>

theorem files_per_language:
  assumes ok: "fst (export_translation h fs inputFile outputDir) = Success m n fl"
    and wb: "XLSX_readFile h fs inputFile = Inr wb" and sh: "Sheets wb sheetName = Some sh"
    and np: "''__proto__'' \<notin> lang_keys (Number_toString h) sh translation_cols
                            \<union> lang_keys (Number_toString h) sh eula_cols"
  shows "n = length fl
       \<and> length fl = card (lang_keys (Number_toString h) sh translation_cols)
                     + card (lang_keys (Number_toString h) sh eula_cols)
       \<and> (\<exists>ts es. distinct ts \<and> set ts = lang_keys (Number_toString h) sh translation_cols
                 \<and> distinct es \<and> set es = lang_keys (Number_toString h) sh eula_cols
                 \<and> fl = map (file_path h outputDir ''translation.json'') ts
                        @ map (file_path h outputDir ''eula.json'') es)"
proof -
  from ok obtain fs' where t: "export_try h fs inputFile outputDir = (Inr fl, fs')" and n: "n = length fl"
    unfolding export_translation_Success by blast
  from export_try_success [OF t] wb sh obtain last_row where
    fl: "fl = map (\<lambda>p. file_path h outputDir ''translation.json'' (fst p))
                 (obj_entries (fst (accumulate (Number_toString h) sh last_row)))
               @ map (\<lambda>p. file_path h outputDir ''eula.json'' (fst p))
                   (obj_entries (snd (accumulate (Number_toString h) sh last_row)))"
    by auto
  let ?ts = "map fst (obj_entries (fst (accumulate (Number_toString h) sh last_row)))"
  let ?es = "map fst (obj_entries (snd (accumulate (Number_toString h) sh last_row)))"
  note dc = dictionaries_created [of "Number_toString h" sh last_row]
  have ts: "distinct ?ts" "set ?ts = lang_keys (Number_toString h) sh translation_cols"
    and es: "distinct ?es" "set ?es = lang_keys (Number_toString h) sh eula_cols"
    using dc np by auto
  have fl': "fl = map (file_path h outputDir ''translation.json'') ?ts
                 @ map (file_path h outputDir ''eula.json'') ?es"
    by (simp add: fl comp_def)
  have "length fl = length ?ts + length ?es" by (simp add: fl)
  also have "\<dots> = card (set ?ts) + card (set ?es)"
    using ts(1) es(1) by (simp only: distinct_card)
  finally have "length fl = card (lang_keys (Number_toString h) sh translation_cols)
                     + card (lang_keys (Number_toString h) sh eula_cols)"
    by (simp only: ts es)
  then show ?thesis using n ts es fl' by blast
qed

theorem files_per_language_witness:
  "length [[''out'', ''en'', ''translation.json''], [''out'', ''ita'', ''translation.json''],
           [''out'', ''en'', ''eula.json'']]
     = card (lang_keys (\<lambda>q. ''2024'') three_languages translation_cols)
       + card (lang_keys (\<lambda>q. ''2024'') three_languages eula_cols)"
proof -
  let ?h = "example_host (workbook_of three_languages)"
  have ok: "fst (export_translation ?h Map.empty ''in.xlsx'' [''out''])
            = Success ''Export completed successfully!'' 3
                [[''out'', ''en'', ''translation.json''], [''out'', ''ita'', ''translation.json''],
                 [''out'', ''en'', ''eula.json'']]"
    by code_simp
  have wb: "XLSX_readFile ?h Map.empty ''in.xlsx'' = Inr (workbook_of three_languages)"
    by (simp add: example_host_def posix_host_def)
  have sh: "Sheets (workbook_of three_languages) sheetName = Some three_languages"
    by (simp add: workbook_of_def)
  have ns: "Number_toString ?h = (\<lambda>q. ''2024'')"
    by (simp add: example_host_def posix_host_def)
  have np: "''__proto__'' \<notin> lang_keys (Number_toString ?h) three_languages translation_cols
                            \<union> lang_keys (Number_toString ?h) three_languages eula_cols"
    unfolding ns by code_simp
  show ?thesis
    using files_per_language [OF ok wb sh np] unfolding ns by simp
qed


subsection \<open>The handler\<close>

text \<open>
  C3. When the workbook opens and has no sheet named \<open>json_tranlsation\<close>, the export
  returns the failure result with the message \<open>Sheet "json_tranlsation" not found\<close> and
  the file system is as it was before the call: no file is written and no directory
  is created, since the directory is created only after the sheet was found.
\<close>

theorem missing_sheet_no_effects:
  assumes "XLSX_readFile h fs inputFile = Inr wb" and "Sheets wb sheetName = None"
  shows "export_translation h fs inputFile outputDir = (Failure sheet_not_found, fs)
         \<and> sheet_not_found = ''Sheet '' @ [dquote] @ ''json_tranlsation'' @ [dquote] @ '' not found''"
  using assms by (simp add: export_translation_def export_try_def sheet_not_found_def sheetName_def)

theorem missing_sheet_no_effects_witness:
  "export_translation (example_host \<lparr> Sheets = (\<lambda>name. None) \<rparr>) Map.empty ''in.xlsx'' [''out'']
     = (Failure sheet_not_found, Map.empty)"
  using missing_sheet_no_effects [of "example_host \<lparr> Sheets = (\<lambda>name. None) \<rparr>"
      Map.empty "''in.xlsx''" "\<lparr> Sheets = (\<lambda>name. None) \<rparr>" "[''out'']"]
  by (simp add: example_host_def posix_host_def)

lemma write_files_head_throws:
  "ensure_dir h fs (path_join h outputDir (folderName lang)) True = Inl e \<Longrightarrow>
     write_files h cfg outputDir fileName ((lang, dict) # rest) created fs = (Inl e, fs)"
  "ensure_dir h fs (path_join h outputDir (folderName lang)) True = Inr fs1 \<Longrightarrow>
   prettier_format h (jsonString dict) cfg (file_path h outputDir fileName lang) = Inl e \<Longrightarrow>
     write_files h cfg outputDir fileName ((lang, dict) # rest) created fs = (Inl e, fs1)"
  "ensure_dir h fs (path_join h outputDir (folderName lang)) True = Inr fs1 \<Longrightarrow>
   prettier_format h (jsonString dict) cfg (file_path h outputDir fileName lang) = Inr formatted \<Longrightarrow>
   fs_writeFileSync h fs1 (file_path h outputDir fileName lang) formatted = Inl e \<Longrightarrow>
     write_files h cfg outputDir fileName ((lang, dict) # rest) created fs = (Inl e, fs1)"
  by (simp_all add: file_path_def Let_def)

text \<open>
  C9. The handler always returns a result: what the \<open>try\<close> block throws is caught and
  becomes the failure result with the message of the error. This holds for the error of
  each step: reading the workbook, the missing sheet, decoding the range, creating the
  output directory, resolving the configuration of the formatter, and the two loops
  that create the language folders, format and write the files.
\<close>

theorem export_never_raises:
  "((\<exists>e fs'. export_try h fs inputFile outputDir = (Inl e, fs')
        \<and> export_translation h fs inputFile outputDir = (Failure e, fs'))
    \<or> (\<exists>fl fs'. export_try h fs inputFile outputDir = (Inr fl, fs')
        \<and> export_translation h fs inputFile outputDir
            = (Success ''Export completed successfully!'' (length fl) fl, fs')))
   \<and> (XLSX_readFile h fs inputFile = Inl e
        \<longrightarrow> export_translation h fs inputFile outputDir = (Failure e, fs))
   \<and> (XLSX_readFile h fs inputFile = Inr wb \<and> Sheets wb sheetName = None
        \<longrightarrow> export_translation h fs inputFile outputDir = (Failure sheet_not_found, fs))
   \<and> (XLSX_readFile h fs inputFile = Inr wb \<and> Sheets wb sheetName = Some sh
        \<and> decoded_ref sh = Inl e
        \<longrightarrow> export_translation h fs inputFile outputDir = (Failure e, fs))
   \<and> (XLSX_readFile h fs inputFile = Inr wb \<and> Sheets wb sheetName = Some sh
        \<and> decoded_ref sh = Inr last_row \<and> ensure_dir h fs outputDir False = Inl e
        \<longrightarrow> export_translation h fs inputFile outputDir = (Failure e, fs))
   \<and> (XLSX_readFile h fs inputFile = Inr wb \<and> Sheets wb sheetName = Some sh
        \<and> decoded_ref sh = Inr last_row \<and> ensure_dir h fs outputDir False = Inr fs1
        \<and> prettier_resolveConfig h fs1 = Inl e
        \<longrightarrow> export_translation h fs inputFile outputDir = (Failure e, fs1))
   \<and> (XLSX_readFile h fs inputFile = Inr wb \<and> Sheets wb sheetName = Some sh
        \<and> decoded_ref sh = Inr last_row \<and> ensure_dir h fs outputDir False = Inr fs1
        \<and> prettier_resolveConfig h fs1 = Inr cfg
        \<and> write_files h cfg outputDir ''translation.json''
              (obj_entries (fst (accumulate (Number_toString h) sh last_row))) [] fs1 = (Inl e, fs2)
        \<longrightarrow> export_translation h fs inputFile outputDir = (Failure e, fs2))
   \<and> (XLSX_readFile h fs inputFile = Inr wb \<and> Sheets wb sheetName = Some sh
        \<and> decoded_ref sh = Inr last_row \<and> ensure_dir h fs outputDir False = Inr fs1
        \<and> prettier_resolveConfig h fs1 = Inr cfg
        \<and> write_files h cfg outputDir ''translation.json''
              (obj_entries (fst (accumulate (Number_toString h) sh last_row))) [] fs1 = (Inr fl1, fs2)
        \<and> write_files h cfg outputDir ''eula.json''
              (obj_entries (snd (accumulate (Number_toString h) sh last_row))) fl1 fs2 = (Inl e, fs3)
        \<longrightarrow> export_translation h fs inputFile outputDir = (Failure e, fs3))"
proof -
  have catch: "(\<exists>e fs'. export_try h fs inputFile outputDir = (Inl e, fs')
        \<and> export_translation h fs inputFile outputDir = (Failure e, fs'))
    \<or> (\<exists>fl fs'. export_try h fs inputFile outputDir = (Inr fl, fs')
        \<and> export_translation h fs inputFile outputDir
            = (Success ''Export completed successfully!'' (length fl) fl, fs'))"
    by (cases "export_try h fs inputFile outputDir")
      (auto simp: export_translation_def split: sum.splits)
  show ?thesis
    by (intro conjI catch) (simp_all add: export_translation_def export_try_def Let_def)
qed

theorem export_never_raises_witness:
  "export_translation
     (posix_host (\<lambda>name. Inl ''Cannot access file in.xlsx'') (\<lambda>q. ''2024'') Inr)
     Map.empty ''in.xlsx'' [''out'']
   = (Failure ''Cannot access file in.xlsx'', Map.empty)
   \<and> export_translation (example_host (workbook_of empty_sheet)) Map.empty ''in.xlsx'' [''a'', ''b'']
   = (Failure ''ENOENT'', Map.empty)"
proof -
  let ?h = "posix_host (\<lambda>name. Inl ''Cannot access file in.xlsx'') (\<lambda>q. ''2024'') Inr"
  let ?g = "example_host (workbook_of empty_sheet)"
  have r: "XLSX_readFile ?h Map.empty ''in.xlsx'' = Inl ''Cannot access file in.xlsx''"
    by (simp add: posix_host_def)
  have g: "XLSX_readFile ?g Map.empty ''in.xlsx'' = Inr (workbook_of empty_sheet)
      \<and> Sheets (workbook_of empty_sheet) sheetName = Some empty_sheet
      \<and> decoded_ref empty_sheet = Inr 1"
    by (simp add: example_host_def posix_host_def workbook_of_def empty_sheet_def sheet_of_def)
  have m: "ensure_dir ?g Map.empty [''a'', ''b''] False = Inl ''ENOENT''"
    by (simp add: ensure_dir_def example_host_def posix_host_def posix_existsSync_def
        posix_mkdirSync_def mkdir_one_def node_at_def)
  show ?thesis
    using export_never_raises [of ?h Map.empty "''in.xlsx''" "[''out'']"
        "''Cannot access file in.xlsx''"] r
      export_never_raises [of ?g Map.empty "''in.xlsx''" "[''a'', ''b'']" "''ENOENT''"
        "workbook_of empty_sheet" empty_sheet 1] g m
    by simp
qed

text \<open>
  C10 as stated fails: two header cells of the translation range with the same language
  name give one dictionary and one file, so the count of files is smaller than the
  count of non-empty header cells.
\<close>

theorem files_fewer_than_header_cells:
  "fst (export_translation (example_host (workbook_of english_twice)) Map.empty ''in.xlsx'' [''out''])
     = Success ''Export completed successfully!'' 1 [[''out'', ''en'', ''translation.json'']]
   \<and> nonempty_header_cells english_twice translation_cols
       + nonempty_header_cells english_twice eula_cols = 2"
  by code_simp

text \<open>
  C6 at the header text \<^verbatim>\<open>__proto__\<close>: the header cell is not empty, but the assignment of
  line 79 sets the prototype of \<open>langData\<close> and creates no property, so the language gets
  no dictionary and no file.
\<close>

theorem proto_header_no_dictionary:
  "truthy (headerRow proto_header 1)
   \<and> headerRow proto_header 1 = JString ''__proto__''
   \<and> accumulate (\<lambda>q. ''2024'') proto_header 2 = ([], [])
   \<and> fst (export_translation (example_host (workbook_of proto_header)) Map.empty ''in.xlsx'' [''out''])
       = Success ''Export completed successfully!'' 0 []"
  by code_simp

lemma data_text_cases:
  "data_text c =
     (case c of
        None \<Rightarrow> None
      | Some cell \<Rightarrow>
          (case cell_w cell of
             Some s \<Rightarrow>
               if s \<noteq> [] then Some s
               else (case cell_v cell of JString t \<Rightarrow> if t \<noteq> [] then Some t else None | _ \<Rightarrow> None)
           | None \<Rightarrow>
               (case cell_v cell of JString t \<Rightarrow> if t \<noteq> [] then Some t else None | _ \<Rightarrow> None)))"
  by (simp add: data_text_def cell_or_def split: option.splits jsval.splits)

text \<open>
  C8 at a header cell that holds the number 2024: line 72 keeps the number, where line
  101 drops such a value in a data cell; the column becomes the language \<open>2024\<close> with a
  dictionary and a file of its own.
\<close>

theorem number_header_kept:
  "header_value (Some (number_cell 2024)) = JNumber 2024
   \<and> data_text (Some (number_cell 2024)) = None
   \<and> accumulate (\<lambda>q. ''2024'') number_header 1 = ([(''2024'', [])], [])
   \<and> fst (export_translation (example_host (workbook_of number_header)) Map.empty ''in.xlsx'' [''out''])
       = Success ''Export completed successfully!'' 1 [[''out'', ''20'', ''translation.json'']]"
  by code_simp

text \<open>
  C4 at an output directory \<open>a/b\<close> whose parent \<open>a\<close> does not exist: line 133 calls
  \<open>mkdirSync\<close> without \<open>recursive\<close>, the call throws, the export fails and the directory
  is not created; the call with \<open>recursive\<close>, as lines 148 and 179 make it, creates it.
\<close>

theorem output_dir_parent_missing:
  "fst (export_translation (example_host (workbook_of empty_sheet)) Map.empty ''in.xlsx'' [''a'', ''b''])
     = Failure ''ENOENT''
   \<and> node_at (snd (export_translation (example_host (workbook_of empty_sheet)) Map.empty ''in.xlsx''
                 [''a'', ''b''])) [''a'', ''b''] = None
   \<and> (case posix_mkdirSync Map.empty [''a'', ''b''] True of
         Inl e \<Rightarrow> False
       | Inr fs' \<Rightarrow> node_at fs' [''a'', ''b''] = Some Dir)"
  by code_simp


subsection \<open>The emitted text\<close>






lemma jsonString_line_break:
  \<open>match_kv ''"a": "x\<newline>y"'' = Some (''a'', ''x\<newline>y'')
   \<and> \<not> json_valid (jsonString [(''a'', ''x\<newline>y'')])\<close>
  by code_simp

subsection \<open>The members of the emitted text\<close>

lemma collect_step_pair:
  "collect_step (st, buf, key, ms) c =
     (let st' = json_step st c
      in if in_string (snd st) \<and> in_string (snd st') then (st', buf @ [c], key, ms)
         else if fst st = [InObject] \<and> snd st = InString True \<and> snd st' = AtColon
         then (st', [], Some buf, ms)
         else if fst st = [InObject] \<and> snd st = InString False \<and> snd st' = AfterValue
         then (case key of
                 Some k \<Rightarrow> (st', [], None, ms @ [(k, buf)])
               | None \<Rightarrow> (st', [], None, ms))
         else (st', [], key, ms))"
  by (simp add: collect_step_def)

lemma collect_in_string:
  assumes "json_step (stack, m) c = (stack, m')" "in_string m" "in_string m'"
  shows "collect_step ((stack, m), buf, key, ms) c = ((stack, m'), buf @ [c], key, ms)"
  using assms by (simp add: collect_step_pair)






subsection \<open>Files on the POSIX file system\<close>








subsection \<open>The file of a language\<close>













end
